theory Spec2Isabelle
  imports Main "HOL-Library.Word" "HOL-Library.Log_Nat" "HOL-Library.AList"
begin

section \<open>JavaScript strings\<close>

text \<open>
  A JavaScript string is a sequence of 16-bit code units; \<open>length\<close>, \<open>trim\<close>,
  \<open>split\<close> and \<open>slice\<close> all count code units.  \<open>js\<close> embeds an ASCII literal.
\<close>

type_synonym jschar = "16 word"
type_synonym jsstring = "jschar list"

definition js :: "string \<Rightarrow> jsstring" where
  "js s = map of_char s"

definition DQUOTE :: jschar where "DQUOTE = 0x22"
definition COMMA :: jschar where "COMMA = 0x2C"
definition LF :: jschar where "LF = 0x0A"
definition CR :: jschar where "CR = 0x0D"

text \<open>
  The code units that \<open>String.prototype.trim\<close> removes and that the grammar of
  \<open>StringToNumber\<close> skips: ECMAScript's WhiteSpace (TAB, VT, FF, SP, NBSP, ZWNBSP and
  the Unicode category Zs) and LineTerminator (LF, CR, LS, PS).
\<close>

definition isWhiteSpace :: "jschar \<Rightarrow> bool" where
  "isWhiteSpace c \<longleftrightarrow>
     c = 0x09 \<or> c = 0x0A \<or> c = 0x0B \<or> c = 0x0C \<or> c = 0x0D \<or> c = 0x20 \<or>
     c = 0xA0 \<or> c = 0x1680 \<or> (0x2000 \<le> c \<and> c \<le> 0x200A) \<or>
     c = 0x2028 \<or> c = 0x2029 \<or> c = 0x202F \<or> c = 0x205F \<or> c = 0x3000 \<or>
     c = 0xFEFF"

definition trim :: "jsstring \<Rightarrow> jsstring" where
  "trim s = rev (dropWhile isWhiteSpace (rev (dropWhile isWhiteSpace s)))"

definition startsWith :: "jschar \<Rightarrow> jsstring \<Rightarrow> bool" where
  "startsWith c s = (case s of [] \<Rightarrow> False | x # _ \<Rightarrow> x = c)"

definition endsWith :: "jschar \<Rightarrow> jsstring \<Rightarrow> bool" where
  "endsWith c s = (case rev s of [] \<Rightarrow> False | x # _ \<Rightarrow> x = c)"

definition includes_elem :: "'a \<Rightarrow> 'a list \<Rightarrow> bool" where
  "includes_elem x xs \<longleftrightarrow> x \<in> set xs"

text \<open>
  \<open>s.slice(start, end)\<close>: a negative index counts from the end, both indices are
  clamped to the string, and an empty range gives the empty string.
\<close>

definition slice :: "int \<Rightarrow> int \<Rightarrow> 'a list \<Rightarrow> 'a list" where
  "slice start fin s =
     (let len = int (length s);
          from = (if start < 0 then max (len + start) 0 else min start len);
          to = (if fin < 0 then max (len + fin) 0 else min fin len)
      in take (nat (to - from)) (drop (nat from) s))"

text \<open>
  \<open>s.split(",")\<close>: the pieces between the separators; the result always has at
  least one piece, so the empty case of the inner \<open>case\<close> is never taken.
\<close>

fun splitOn :: "'a \<Rightarrow> 'a list \<Rightarrow> 'a list list" where
  "splitOn sep [] = [[]]"
| "splitOn sep (c # cs) =
     (if c = sep then [] # splitOn sep cs
      else (case splitOn sep cs of [] \<Rightarrow> [[c]] | p # ps \<Rightarrow> (c # p) # ps))"

text \<open>
  \<open>s.split(/\r?\n/)\<close>: a separator is CR LF or a lone LF; a CR that no LF follows
  stays in its piece.
\<close>

fun splitLines :: "jsstring \<Rightarrow> jsstring list" where
  "splitLines [] = [[]]"
| "splitLines [c] = (if c = LF then [[], []] else [[c]])"
| "splitLines (c # d # cs) =
     (if c = CR \<and> d = LF then [] # splitLines cs
      else if c = LF then [] # splitLines (d # cs)
      else (case splitLines (d # cs) of [] \<Rightarrow> [[c]] | p # ps \<Rightarrow> (c # p) # ps))"

text \<open>
  \<open>s.replace(/^"|"$/g, "")\<close>: the global replace deletes every match.  A match
  is one code unit: a double quote at index 0 (first alternative) or a double quote
  at the last index (second alternative).
\<close>

definition stripQuotes :: "jsstring \<Rightarrow> jsstring" where
  "stripQuotes s =
     map snd (filter (\<lambda>(i, c). \<not> (c = DQUOTE \<and> (i = 0 \<or> i + 1 = length s)))
                     (zip [0..<length s] s))"

text \<open>\<open>xs.join(sep)\<close>.\<close>

fun join :: "'a list \<Rightarrow> 'a list list \<Rightarrow> 'a list" where
  "join sep [] = []"
| "join sep [x] = x"
| "join sep (x # y # ys) = x @ sep @ join sep (y # ys)"

section \<open>JavaScript numbers and the conversion of a string to a number\<close>

text \<open>
  A Number is an IEEE 754 double: NaN, the two infinities, the two zeros, and the
  finite values \<open>m * 2^k\<close> with \<open>|m| < 2^53\<close> and \<open>-1074 \<le> k \<le> 971\<close>, held here
  as exact rationals (\<open>Fin 0\<close> is +0).
\<close>

datatype jsnum = NaN | PosInf | NegInf | NegZero | Fin rat

definition roundHalfEven :: "rat \<Rightarrow> int" where
  "roundHalfEven q =
     (let f = \<lfloor>q\<rfloor>; d = q - of_int f
      in if d < 1 / 2 then f
         else if 1 / 2 < d then f + 1
         else if even f then f else f + 1)"

text \<open>\<open>floorLog2 x\<close> is the \<open>e\<close> with \<open>2^e \<le> x < 2^(e+1)\<close>, for \<open>x > 0\<close>.\<close>

definition floorLog2 :: "rat \<Rightarrow> int" where
  "floorLog2 x =
     (let (p, q) = quotient_of x; d = bitlen p - bitlen q
      in if 2 powi d \<le> x then d else d - 1)"

text \<open>
  The Number value for a mathematical value \<open>x \<ge> 0\<close>: the nearest double, ties to
  the even mantissa, infinity from \<open>2^1024 - 2^970\<close> on.  (ECMAScript allows an
  engine to round a literal of more than 20 significant digits from its first 20
  digits; the engines round the exact value, as here.)
\<close>

definition roundToDouble :: "rat \<Rightarrow> jsnum" where
  "roundToDouble x =
     (if x \<le> 0 then Fin 0
      else let k = max (floorLog2 x - 52) (- 1074);
               v = of_int (roundHalfEven (x / 2 powi k)) * 2 powi k
           in if 2 ^ 1024 \<le> v then PosInf else Fin v)"

fun negateNum :: "jsnum \<Rightarrow> jsnum" where
  "negateNum NaN = NaN"
| "negateNum PosInf = NegInf"
| "negateNum NegInf = PosInf"
| "negateNum NegZero = Fin 0"
| "negateNum (Fin x) = (if x = 0 then NegZero else Fin (- x))"

definition isDigit :: "jschar \<Rightarrow> bool" where
  "isDigit c \<longleftrightarrow> 0x30 \<le> c \<and> c \<le> 0x39"

text \<open>The value of a digit of radix up to 16; \<open>None\<close> for any other code unit.\<close>

definition hexDigitValue :: "jschar \<Rightarrow> int option" where
  "hexDigitValue c =
     (if 0x30 \<le> c \<and> c \<le> 0x39 then Some (uint c - 0x30)
      else if 0x61 \<le> c \<and> c \<le> 0x66 then Some (uint c - 0x61 + 10)
      else if 0x41 \<le> c \<and> c \<le> 0x46 then Some (uint c - 0x41 + 10)
      else None)"

definition isRadixDigit :: "int \<Rightarrow> jschar \<Rightarrow> bool" where
  "isRadixDigit radix c = (case hexDigitValue c of None \<Rightarrow> False | Some v \<Rightarrow> v < radix)"

definition radixValue :: "int \<Rightarrow> jsstring \<Rightarrow> int" where
  "radixValue radix ds =
     foldl (\<lambda>a c. radix * a + (case hexDigitValue c of None \<Rightarrow> 0 | Some v \<Rightarrow> v)) 0 ds"

text \<open>
  ExponentPart: nothing (exponent 0), or \<open>e\<close>/\<open>E\<close>, an optional sign and at least one
  digit up to the end of the string.
\<close>

definition parseExponent :: "jsstring \<Rightarrow> int option" where
  "parseExponent s =
     (case s of
        [] \<Rightarrow> Some 0
      | c # r \<Rightarrow>
          if c = 0x65 \<or> c = 0x45 then
            (let neg = startsWith 0x2D r;
                 ds = (if startsWith 0x2D r \<or> startsWith 0x2B r then drop 1 r else r)
             in if ds \<noteq> [] \<and> list_all isDigit ds
                then Some (if neg then - radixValue 10 ds else radixValue 10 ds)
                else None)
          else None)"

text \<open>
  StrUnsignedDecimalLiteral: \<open>Infinity\<close>, or digits with an optional fraction and
  exponent, with a digit before or after the dot.  Anything else is NaN.
\<close>

definition parseUnsignedDecimal :: "jsstring \<Rightarrow> jsnum" where
  "parseUnsignedDecimal s =
     (if s = js ''Infinity'' then PosInf
      else let ip = takeWhile isDigit s;
               r1 = dropWhile isDigit s;
               hasDot = startsWith 0x2E r1;
               fp = (if hasDot then takeWhile isDigit (drop 1 r1) else []);
               r2 = (if hasDot then dropWhile isDigit (drop 1 r1) else r1)
           in if ip = [] \<and> fp = [] then NaN
              else (case parseExponent r2 of
                      None \<Rightarrow> NaN
                    | Some e \<Rightarrow>
                        roundToDouble
                          ((of_int (radixValue 10 ip)
                            + of_int (radixValue 10 fp) / 10 ^ length fp) * 10 powi e)))"

text \<open>
  NonDecimalIntegerLiteral: \<open>0x\<close>, \<open>0o\<close> or \<open>0b\<close> (either case) and at least one
  digit of that radix up to the end of the string; it takes no sign.
\<close>

definition parseNonDecimal :: "jsstring \<Rightarrow> jsnum option" where
  "parseNonDecimal s =
     (if 2 < length s \<and> s ! 0 = 0x30 then
        (let p = s ! 1; ds = drop 2 s;
             radix = (if p = 0x78 \<or> p = 0x58 then 16
                      else if p = 0x6F \<or> p = 0x4F then 8
                      else if p = 0x62 \<or> p = 0x42 then 2 else 0)
         in if list_all (isRadixDigit radix) ds
            then Some (roundToDouble (of_int (radixValue radix ds))) else None)
      else None)"

text \<open>
  \<open>StringToNumber\<close>: white space around the literal is skipped, the empty string is
  +0, a string that is no StrNumericLiteral is NaN.
\<close>

definition StringToNumber :: "jsstring \<Rightarrow> jsnum" where
  "StringToNumber s =
     (let t = trim s
      in if t = [] then Fin 0
         else (case parseNonDecimal t of
                 Some v \<Rightarrow> v
               | None \<Rightarrow>
                   if startsWith 0x2D t then negateNum (parseUnsignedDecimal (drop 1 t))
                   else if startsWith 0x2B t then parseUnsignedDecimal (drop 1 t)
                   else parseUnsignedDecimal t))"

section \<open>JavaScript values and objects\<close>

text \<open>
  The values the parser handles.  \<open>Undefined\<close> is what an array read past its end
  gives; \<open>Null\<close> is there because the row filter tests for it.
\<close>

datatype jsvalue = Undefined | Null | JNumber jsnum | JString jsstring

text \<open>\<open>vals[i]\<close> on an array of strings.\<close>

definition arrayGet :: "jsstring list \<Rightarrow> nat \<Rightarrow> jsvalue" where
  "arrayGet vals i = (if i < length vals then JString (vals ! i) else Undefined)"

text \<open>\<open>a ?? b\<close>.\<close>

definition nullish :: "jsvalue \<Rightarrow> jsvalue \<Rightarrow> jsvalue" where
  "nullish a b = (if a = Undefined \<or> a = Null then b else a)"

text \<open>\<open>Number(v)\<close> (ToNumber) and the global \<open>isNaN(v)\<close>.\<close>

fun Number :: "jsvalue \<Rightarrow> jsnum" where
  "Number Undefined = NaN"
| "Number Null = Fin 0"
| "Number (JNumber n) = n"
| "Number (JString s) = StringToNumber s"

definition isNaN :: "jsvalue \<Rightarrow> bool" where
  "isNaN v \<longleftrightarrow> Number v = NaN"

text \<open>
  An object literal \<open>{}\<close> with the properties assigned to it, as the list of its own
  properties in creation order.  \<open>obj[k] = v\<close> replaces the value of an own property
  \<open>k\<close> or adds \<open>k\<close> at the end.  The key \<open>__proto__\<close> is the exception: the
  assignment reaches the setter that \<open>Object.prototype\<close> inherits to every object
  literal, and the setter creates no own property.  (JavaScript enumerates keys that
  are array indices first; \<open>some\<close> over the values does not observe the order.)
\<close>

type_synonym jsobject = "(jsstring \<times> jsvalue) list"

definition setProp :: "jsobject \<Rightarrow> jsstring \<Rightarrow> jsvalue \<Rightarrow> jsobject" where
  "setProp obj k v = (if k = js ''__proto__'' then obj else AList.update k v obj)"

definition ObjectValues :: "jsobject \<Rightarrow> jsvalue list" where
  "ObjectValues obj = map snd obj"

section \<open>The built-in CSV parser\<close>

record ParsedTable =
  headers :: "jsstring list"
  rows :: "jsobject list"

datatype error = EmptyFile

text \<open>\<open>text.trim().split(/\r?\n/).filter(l => l.trim())\<close>\<close>

definition csvLines :: "jsstring \<Rightarrow> jsstring list" where
  "csvLines text = filter (\<lambda>l. trim l \<noteq> []) (splitLines (trim text))"

definition isQuotedRow :: "jsstring \<Rightarrow> bool" where
  "isQuotedRow firstLine \<longleftrightarrow>
     startsWith DQUOTE firstLine \<and> endsWith DQUOTE firstLine \<and>
     \<not> includes_elem DQUOTE (slice 1 (- 1) firstLine)"

text \<open>The two branches, each giving \<open>(headers, dataLines)\<close>.\<close>

definition quotedRowBranch :: "jsstring list \<Rightarrow> jsstring list \<times> jsstring list" where
  "quotedRowBranch lines =
     (let stripped =
            map (\<lambda>l. let t = trim l
                      in if startsWith DQUOTE t \<and> endsWith DQUOTE t then slice 1 (- 1) t else t)
                lines
      in (map trim (splitOn COMMA (stripped ! 0)), drop 1 stripped))"

definition standardBranch :: "jsstring \<Rightarrow> jsstring list \<Rightarrow> jsstring list \<times> jsstring list" where
  "standardBranch firstLine lines =
     (map (\<lambda>h. stripQuotes (trim h)) (splitOn COMMA firstLine), drop 1 lines)"

definition headersAndData :: "jsstring list \<Rightarrow> jsstring list \<times> jsstring list" where
  "headersAndData lines =
     (let firstLine = trim (lines ! 0)
      in if isQuotedRow firstLine then quotedRowBranch lines
         else standardBranch firstLine lines)"

text \<open>\<open>line.split(",").map(v => v.trim().replace(/^"|"$/g, ""))\<close>\<close>

definition lineVals :: "jsstring \<Rightarrow> jsstring list" where
  "lineVals line = map (\<lambda>v. stripQuotes (trim v)) (splitOn COMMA line)"

text \<open>
  The value stored for the header at index \<open>i\<close>:
  \<open>raw = vals[i] ?? ""\<close>, then \<open>raw !== "" && !isNaN(raw) ? Number(raw) : raw\<close>.
\<close>

definition typedValue :: "jsvalue \<Rightarrow> jsvalue" where
  "typedValue raw = (if raw \<noteq> JString [] \<and> \<not> isNaN raw then JNumber (Number raw) else raw)"

definition fieldValue :: "jsstring list \<Rightarrow> nat \<Rightarrow> jsvalue" where
  "fieldValue vals i = typedValue (nullish (arrayGet vals i) (JString []))"

text \<open>\<open>headers.forEach((h, i) => { obj[h] = ... })\<close> on the empty object.\<close>

definition buildRecord :: "jsstring list \<Rightarrow> jsstring list \<Rightarrow> jsobject" where
  "buildRecord hs vals =
     foldl (\<lambda>obj (h, i). setProp obj h (fieldValue vals i)) [] (zip hs [0..<length hs])"

text \<open>The callback of \<open>dataLines.map\<close>: the record of one data line.\<close>

definition lineRecord :: "jsstring list \<Rightarrow> jsstring \<Rightarrow> jsobject" where
  "lineRecord hs line = buildRecord hs (lineVals line)"

text \<open>The callback of \<open>filter\<close>: \<open>Object.values(r).some(v => v !== "" && v !== null)\<close>.\<close>

definition keepRow :: "jsobject \<Rightarrow> bool" where
  "keepRow r = list_ex (\<lambda>v. v \<noteq> JString [] \<and> v \<noteq> Null) (ObjectValues r)"

definition buildRows :: "jsstring list \<Rightarrow> jsstring list \<Rightarrow> jsobject list" where
  "buildRows hs dataLines = filter keepRow (map (lineRecord hs) dataLines)"

definition parseCSVBuiltIn :: "jsstring \<Rightarrow> error + ParsedTable" where
  "parseCSVBuiltIn text =
     (let lines = csvLines text
      in if lines = [] then Inl EmptyFile
         else let (hs, dataLines) = headersAndData lines
              in Inr \<lparr>headers = hs, rows = buildRows hs dataLines\<rparr>)"

section \<open>The caller: the built-in path of the batch page\<close>

definition REQ_COLS :: "jsstring list" where
  "REQ_COLS = map js [''step'', ''type'', ''amount'', ''oldbalanceOrg'', ''newbalanceOrig'',
                      ''oldbalanceDest'', ''newbalanceDest'']"

fun errorMessage :: "error \<Rightarrow> jsstring" where
  "errorMessage EmptyFile = js ''Empty file''"

text \<open>
  What the handler leaves in the page's state: an error text (\<open>setPErr\<close>), or the
  rows and an information text (\<open>setRows\<close>, \<open>setPInfo\<close>).
\<close>

datatype outcome = ParseErr jsstring | RowsLoaded "jsobject list" jsstring

text \<open>The decimal digits of a length, as a template literal prints it.\<close>

fun showNat :: "nat \<Rightarrow> jsstring" where
  "showNat n =
     (if n < 10 then [0x30 + of_nat n]
      else showNat (n div 10) @ [0x30 + of_nat (n mod 10)])"

text \<open>
  The check of the columns, for any list of required columns: the text of the error
  when one is missing.
\<close>

definition missingColumns :: "jsstring list \<Rightarrow> jsstring list \<Rightarrow> jsstring list" where
  "missingColumns req hs = filter (\<lambda>c. \<not> includes_elem c hs) req"

definition missingMessage :: "jsstring list \<Rightarrow> jsstring list \<Rightarrow> jsstring" where
  "missingMessage miss hs =
     js ''Missing columns: '' @ join (js '', '') miss @ js ''. Found: '' @ join (js '', '') hs"

definition checkColumns :: "jsstring list \<Rightarrow> jsstring list \<Rightarrow> jsstring option" where
  "checkColumns req hs =
     (let miss = missingColumns req hs
      in if miss \<noteq> [] then Some (missingMessage miss hs) else None)"

text \<open>
  The part of \<open>handleFile\<close> that runs once the attempt with the PapaParse library
  (an import, not code of this repository) has not produced the required columns and a
  row: the built-in parser, then the checks, in the order of the source.  The
  information text starts with a check mark (U+2713) and has a middle dot (U+00B7).
\<close>

definition handleFileBuiltIn :: "jsstring \<Rightarrow> outcome" where
  "handleFileBuiltIn text =
     (case parseCSVBuiltIn text of
        Inl e \<Rightarrow> ParseErr (js ''Parse error: '' @ errorMessage e)
      | Inr t \<Rightarrow>
          (case checkColumns REQ_COLS (headers t) of
             Some msg \<Rightarrow> ParseErr msg
           | None \<Rightarrow>
               if 500 < length (rows t) then ParseErr (js ''Max 500 rows allowed.'')
               else if rows t = [] then ParseErr (js ''No data rows found.'')
               else RowsLoaded (rows t)
                      ([0x2713] @ js '' Built-in parser used (non-standard CSV format) ''
                       @ [0xB7] @ js '' '' @ showNat (length (rows t))
                       @ js '' rows loaded'')))"

section \<open>The statements of the specification\<close>

text \<open>
  The specification's test for the quoted-row format: the line starts with a double
  quote, ends with a double quote, and no double quote stands between its first and
  its last code unit.
\<close>

definition wrappedInQuotes :: "jsstring \<Rightarrow> bool" where
  "wrappedInQuotes l \<longleftrightarrow>
     l \<noteq> [] \<and> hd l = DQUOTE \<and> last l = DQUOTE \<and> DQUOTE \<notin> set (butlast (tl l))"

text \<open>
  The specification's treatment of a field: one leading and one trailing double
  quote are stripped if both are present, and the field is left as it is otherwise.
\<close>

definition stripBothQuotes :: "jsstring \<Rightarrow> jsstring" where
  "stripBothQuotes s =
     (if s \<noteq> [] \<and> hd s = DQUOTE \<and> last s = DQUOTE then butlast (tl s) else s)"

text \<open>
  Stripping each end on its own: a leading double quote goes if there is one, and
  then a trailing double quote goes if there is one.
\<close>

definition stripEnds :: "jsstring \<Rightarrow> jsstring" where
  "stripEnds s =
     (let s1 = (if s \<noteq> [] \<and> hd s = DQUOTE then tl s else s)
      in if s1 \<noteq> [] \<and> last s1 = DQUOTE then butlast s1 else s1)"

text \<open>
  The specification's test for a numeric field, "a valid finite number": the string
  converts to a number that is neither NaN nor infinite (JavaScript's \<open>isFinite\<close>).
\<close>

definition isFiniteString :: "jsstring \<Rightarrow> bool" where
  "isFiniteString s =
     (case StringToNumber s of NaN \<Rightarrow> False | PosInf \<Rightarrow> False | NegInf \<Rightarrow> False
      | NegZero \<Rightarrow> True | Fin x \<Rightarrow> True)"

text \<open>
  The specification's rule for dropping a record: every value is the empty string,
  null or undefined.  The second predicate is the rule without null and undefined.
\<close>

definition allBlank :: "jsobject \<Rightarrow> bool" where
  "allBlank r = list_all (\<lambda>v. v = JString [] \<or> v = Null \<or> v = Undefined) (ObjectValues r)"

definition allEmptyStrings :: "jsobject \<Rightarrow> bool" where
  "allEmptyStrings r = list_all (\<lambda>v. v = JString []) (ObjectValues r)"

text \<open>The table that the parser returns for given headers and data lines.\<close>

definition tableOf :: "jsstring list \<times> jsstring list \<Rightarrow> ParsedTable" where
  "tableOf p = \<lparr>headers = fst p, rows = buildRows (fst p) (snd p)\<rparr>"

section \<open>Strings: basic facts\<close>

lemma unat_of_char: "unat (of_char c :: 16 word) = of_char c"
proof -
  have lt: "(of_char c :: nat) < 2 ^ 16"
    by (rule less_trans [where y = 256]) simp_all
  have "(of_char c :: 16 word) = of_nat (of_char c)" by (simp add: of_nat_of_char)
  then have "unat (of_char c :: 16 word) = of_char c mod 2 ^ 16"
    by (simp only: unat_of_nat) simp
  then show ?thesis by (simp only: mod_less [OF lt])
qed

lemma of_char_word_inj: "(of_char c :: 16 word) = of_char d \<longleftrightarrow> c = d"
proof
  assume "(of_char c :: 16 word) = of_char d"
  then have "unat (of_char c :: 16 word) = unat (of_char d :: 16 word)" by simp
  then have "(of_char c :: nat) = of_char d" by (simp only: unat_of_char)
  then show "c = d" by simp
qed simp

lemma js_eq_iff: "js s = js t \<longleftrightarrow> s = t"
  unfolding js_def by (simp add: inj_map_eq_map inj_on_def of_char_word_inj)

lemma js_Nil_iff: "js s = [] \<longleftrightarrow> s = []"
  by (simp add: js_def)

lemma trim_Nil: "trim [] = []"
  by (simp add: trim_def)

lemma trim_all_whitespace: "\<forall>c\<in>set s. isWhiteSpace c \<Longrightarrow> trim s = []"
proof -
  assume "\<forall>c\<in>set s. isWhiteSpace c"
  then have d: "dropWhile isWhiteSpace s = []" by simp
  show ?thesis unfolding trim_def d by simp
qed

lemma splitOn_not_Nil: "splitOn sep s \<noteq> []"
  by (induction s) (auto split: list.splits)

lemma splitLines_not_Nil: "splitLines s \<noteq> []"
  by (induction s rule: splitLines.induct) (auto split: list.splits)

lemma slice_inner: "slice 1 (- 1) s = butlast (tl s)"
proof (cases s)
  case Nil
  then show ?thesis by (simp add: slice_def)
next
  case (Cons a m)
  have "nat (int (length m) - 1) = length m - 1" by arith
  with Cons show ?thesis
    by (simp add: slice_def butlast_conv_take drop_Suc)
qed

lemma startsWith_iff: "startsWith c s \<longleftrightarrow> s \<noteq> [] \<and> hd s = c"
  by (cases s) (auto simp: startsWith_def)

lemma endsWith_iff: "endsWith c s \<longleftrightarrow> s \<noteq> [] \<and> last s = c"
  by (cases s rule: rev_cases) (auto simp: endsWith_def)

lemma isQuotedRow_iff: "isQuotedRow l \<longleftrightarrow> wrappedInQuotes l"
  unfolding isQuotedRow_def wrappedInQuotes_def startsWith_iff endsWith_iff slice_inner
    includes_elem_def
  by blast

text \<open>Trimming and splitting lose no code unit that is not white space.\<close>

lemma dropWhile_keeps: "x \<in> set xs \<Longrightarrow> \<not> P x \<Longrightarrow> x \<in> set (dropWhile P xs)"
  by (induction xs) auto

lemma trim_keeps: "c \<in> set s \<Longrightarrow> \<not> isWhiteSpace c \<Longrightarrow> c \<in> set (trim s)"
  by (simp add: trim_def dropWhile_keeps)

lemma splitLines_keeps:
  "c \<in> set s \<Longrightarrow> c \<noteq> LF \<Longrightarrow> c \<noteq> CR \<Longrightarrow> \<exists>l\<in>set (splitLines s). c \<in> set l"
proof (induction s rule: splitLines.induct)
  case 1
  then show ?case by simp
next
  case (2 d)
  then show ?case by auto
next
  case (3 a b cs)
  show ?case
  proof (cases "a = CR \<and> b = LF")
    case True
    with 3 show ?thesis by auto
  next
    case False
    note ab = this
    show ?thesis
    proof (cases "a = LF")
      case True
      with 3 ab show ?thesis by auto
    next
      case False
      obtain p ps where sp: "splitLines (b # cs) = p # ps"
        using splitLines_not_Nil [of "b # cs"] by (cases "splitLines (b # cs)") auto
      show ?thesis
      proof (cases "c = a")
        case True
        with ab False sp show ?thesis by auto
      next
        case neq: False
        with "3.prems" have "c \<in> set (b # cs)" by simp
        from "3.IH"(3) [OF ab False this "3.prems"(2,3)] sp ab False
        show ?thesis by auto
      qed
    qed
  qed
qed

subsection \<open>The regular expression strips each end on its own\<close>

lemma zip_upt_ends:
  "zip [0..<Suc (Suc (length m))] (a # m @ [b]) =
     (0, a) # zip [1..<Suc (length m)] m @ [(Suc (length m), b)]"
proof -
  have "[0..<Suc (Suc (length m))] = 0 # [1..<Suc (Suc (length m))]"
    by (simp add: upt_conv_Cons del: upt_Suc)
  moreover have "[1..<Suc (Suc (length m))] = [1..<Suc (length m)] @ [Suc (length m)]"
    by simp
  ultimately have "[0..<Suc (Suc (length m))] = 0 # [1..<Suc (length m)] @ [Suc (length m)]"
    by (simp only:)
  then show ?thesis by (simp del: upt_Suc)
qed

lemma filter_inner_positions:
  assumes "0 < k" and "k + length m < n"
  shows "map snd (filter (\<lambda>(i, c). \<not> (c = q \<and> (i = 0 \<or> i + 1 = n)))
                     (zip [k..<k + length m] m)) = m"
proof -
  have "\<forall>x\<in>set (zip [k..<k + length m] m). (\<lambda>(i, c). \<not> (c = q \<and> (i = 0 \<or> i + 1 = n))) x"
    using assms by (auto dest!: set_zip_leftD)
  then have "filter (\<lambda>(i, c). \<not> (c = q \<and> (i = 0 \<or> i + 1 = n))) (zip [k..<k + length m] m)
               = zip [k..<k + length m] m"
    by (simp only: filter_True)
  then show ?thesis by simp
qed

lemma stripQuotes_Nil: "stripQuotes [] = []"
  by (simp add: stripQuotes_def)

lemma stripQuotes_single: "stripQuotes [a] = (if a = DQUOTE then [] else [a])"
  by (simp add: stripQuotes_def)

lemma stripQuotes_ends:
  "stripQuotes (a # m @ [b]) =
     (if a = DQUOTE then [] else [a]) @ m @ (if b = DQUOTE then [] else [b])"
proof -
  have mid: "map snd (filter (\<lambda>(i, c). \<not> (c = DQUOTE \<and> (i = 0 \<or> i + 1 = Suc (Suc (length m)))))
                (zip [1..<Suc (length m)] m)) = m"
    using filter_inner_positions [of 1 m "Suc (Suc (length m))" DQUOTE] by simp
  show ?thesis
    unfolding stripQuotes_def
    using mid by (simp add: zip_upt_ends del: upt_Suc)
qed

lemma stripQuotes_eq_stripEnds: "stripQuotes s = stripEnds s"
proof (cases s)
  case Nil
  then show ?thesis by (simp add: stripQuotes_Nil stripEnds_def)
next
  case (Cons a r)
  show ?thesis
  proof (cases r rule: rev_cases)
    case Nil
    with Cons show ?thesis by (simp add: stripQuotes_single stripEnds_def)
  next
    case (snoc m b)
    with Cons show ?thesis
      by (simp add: stripQuotes_ends stripEnds_def butlast_append)
  qed
qed

section \<open>Records: basic facts\<close>

lemma fieldValue_eq:
  "fieldValue vals i =
     (let raw = (if i < length vals then vals ! i else [])
      in if raw \<noteq> [] \<and> StringToNumber raw \<noteq> NaN then JNumber (StringToNumber raw)
         else JString raw)"
  by (simp add: fieldValue_def typedValue_def nullish_def arrayGet_def isNaN_def)

lemma fieldValue_missing: "length vals \<le> i \<Longrightarrow> fieldValue vals i = JString []"
  by (simp add: fieldValue_eq)

lemma fieldValue_number_or_string:
  "(\<exists>n. fieldValue vals i = JNumber n \<and> n \<noteq> NaN) \<or> (\<exists>s. fieldValue vals i = JString s)"
  by (simp add: fieldValue_eq Let_def)

lemma set_update_sub: "set (AList.update k v al) \<subseteq> insert (k, v) (set al)"
  by (induction al) auto

lemma set_setProp: "set (setProp obj k v) \<subseteq> insert (k, v) (set obj)"
  using set_update_sub [of k v obj] by (auto simp: setProp_def)

lemma zip_upt_Cons:
  "zip (h # hs) [n..<n + length (h # hs)] = (h, n) # zip hs [Suc n..<Suc n + length hs]"
  by (simp add: upt_conv_Cons del: upt_Suc)

text \<open>Every property of a record holds the value of some position of the line.\<close>

lemma fold_entries:
  "(k, v) \<in> set (foldl (\<lambda>obj (h, i). setProp obj h (fieldValue vals i)) obj
                    (zip hs [n..<n + length hs])) \<Longrightarrow>
   (k, v) \<in> set obj \<or> (\<exists>j<length hs. k = hs ! j \<and> v = fieldValue vals (n + j))"
proof (induction hs arbitrary: obj n)
  case Nil
  then show ?case by simp
next
  case (Cons h hs)
  from Cons.prems
  have "(k, v) \<in> set (foldl (\<lambda>obj (h, i). setProp obj h (fieldValue vals i))
                        (setProp obj h (fieldValue vals n)) (zip hs [Suc n..<Suc n + length hs]))"
    by (simp only: zip_upt_Cons foldl_Cons prod.case)
  from Cons.IH [OF this]
  consider "(k, v) \<in> set (setProp obj h (fieldValue vals n))"
    | j where "j < length hs" "k = hs ! j" "v = fieldValue vals (Suc n + j)"
    by blast
  then show ?case
  proof cases
    case 1
    with set_setProp [of obj h "fieldValue vals n"]
    have "(k, v) = (h, fieldValue vals n) \<or> (k, v) \<in> set obj" by blast
    then show ?thesis
    proof
      assume "(k, v) = (h, fieldValue vals n)"
      then have "0 < length (h # hs) \<and> k = (h # hs) ! 0 \<and> v = fieldValue vals (n + 0)" by simp
      then show ?thesis by blast
    qed simp
  next
    case 2
    then have "Suc j < length (h # hs) \<and> k = (h # hs) ! Suc j \<and> v = fieldValue vals (n + Suc j)"
      by simp
    then show ?thesis by blast
  qed
qed

lemma buildRecord_entries:
  "(k, v) \<in> set (buildRecord hs vals) \<Longrightarrow> \<exists>j<length hs. k = hs ! j \<and> v = fieldValue vals j"
  using fold_entries [of k v vals "[]" hs 0] by (simp add: buildRecord_def)

lemma buildRecord_values:
  "v \<in> set (ObjectValues (buildRecord hs vals)) \<Longrightarrow> \<exists>j<length hs. v = fieldValue vals j"
  unfolding ObjectValues_def using buildRecord_entries by fastforce

text \<open>A record depends on the line only through the values at the header positions.\<close>

lemma buildRecord_cong:
  assumes "\<forall>i<length hs. fieldValue vals i = fieldValue vals' i"
  shows "buildRecord hs vals = buildRecord hs vals'"
  unfolding buildRecord_def
proof (rule foldl_cong [OF refl refl])
  fix obj :: jsobject and x :: "jsstring \<times> nat"
  assume x: "x \<in> set (zip hs [0..<length hs])"
  obtain h i where hi: "x = (h, i)" by (cases x)
  with x have "i \<in> set [0..<length hs]" by (auto dest: set_zip_rightD)
  then have "i < length hs" by simp
  with assms hi show "(case x of (h, i) \<Rightarrow> setProp obj h (fieldValue vals i)) =
                   (case x of (h, i) \<Rightarrow> setProp obj h (fieldValue vals' i))"
    by simp
qed

subsection \<open>Looking a header up in a record\<close>

lemma map_of_setProp:
  "map_of (setProp obj h x) k =
     (if h = js ''__proto__'' then map_of obj k else if k = h then Some x else map_of obj k)"
  by (simp add: setProp_def update_conv')

lemma fold_lookup_other:
  "k \<notin> set hs \<Longrightarrow>
   map_of (foldl (\<lambda>obj (h, i). setProp obj h (fieldValue vals i)) obj
             (zip hs [n..<n + length hs])) k = map_of obj k"
proof (induction hs arbitrary: obj n)
  case Nil
  then show ?case by simp
next
  case (Cons h hs)
  from Cons.prems have "k \<notin> set hs" "k \<noteq> h" by auto
  with Cons.IH [of "setProp obj h (fieldValue vals n)" "Suc n"]
  show ?case
    by (simp only: zip_upt_Cons foldl_Cons prod.case) (simp add: map_of_setProp)
qed

lemma fold_lookup:
  "i < length hs \<Longrightarrow> hs ! i \<notin> set (drop (Suc i) hs) \<Longrightarrow>
   map_of (foldl (\<lambda>obj (h, i). setProp obj h (fieldValue vals i)) obj
             (zip hs [n..<n + length hs])) (hs ! i) =
     (if hs ! i = js ''__proto__'' then map_of obj (hs ! i) else Some (fieldValue vals (n + i)))"
proof (induction hs arbitrary: obj n i)
  case Nil
  then show ?case by simp
next
  case (Cons h hs)
  show ?case
  proof (cases i)
    case 0
    with Cons.prems have "h \<notin> set hs" by simp
    from fold_lookup_other [OF this, of vals "setProp obj h (fieldValue vals n)" "Suc n"] 0
    show ?thesis
      by (simp only: zip_upt_Cons foldl_Cons prod.case) (simp add: map_of_setProp)
  next
    case (Suc j)
    with Cons.prems have j: "j < length hs" "hs ! j \<notin> set (drop (Suc j) hs)" by simp_all
    have "map_of (setProp obj h (fieldValue vals n)) (js ''__proto__'') = map_of obj (js ''__proto__'')"
      by (simp add: map_of_setProp)
    with Cons.IH [OF j, of "setProp obj h (fieldValue vals n)" "Suc n"] Suc
    show ?thesis
      by (simp only: zip_upt_Cons foldl_Cons prod.case) (simp add: map_of_setProp)
  qed
qed

text \<open>
  The value under a header that no later header repeats is the value of its own
  position; the header \<open>__proto__\<close> gives no property at all.
\<close>

lemma record_lookup:
  "i < length hs \<Longrightarrow> hs ! i \<notin> set (drop (Suc i) hs) \<Longrightarrow>
   map_of (buildRecord hs vals) (hs ! i) =
     (if hs ! i = js ''__proto__'' then None else Some (fieldValue vals i))"
  using fold_lookup [of i hs vals "[]" 0] by (simp add: buildRecord_def)

lemma record_keys: "fst ` set (buildRecord hs vals) = set hs - {js ''__proto__''}"
proof -
  have "fst ` set (foldl (\<lambda>obj (h, i). setProp obj h (fieldValue vals i)) obj
             (zip hs [n..<n + length hs])) = fst ` set obj \<union> (set hs - {js ''__proto__''})"
    for obj n
  proof (induction hs arbitrary: obj n)
    case Nil
    then show ?case by simp
  next
    case (Cons h hs)
    have "fst ` set (setProp obj h (fieldValue vals n))
            = fst ` set obj \<union> (if h = js ''__proto__'' then {} else {h})"
      by (auto simp: setProp_def dom_update)
    with Cons.IH [of "setProp obj h (fieldValue vals n)" "Suc n"]
    show ?case
      by (simp only: zip_upt_Cons foldl_Cons prod.case) auto
  qed
  from this [of "[]" 0] show ?thesis by (simp add: buildRecord_def)
qed

lemma last_occurrence:
  assumes "i < length hs"
  shows "\<exists>j. i \<le> j \<and> j < length hs \<and> hs ! j = hs ! i \<and> hs ! j \<notin> set (drop (Suc j) hs)"
proof -
  define S where "S = {j. j < length hs \<and> hs ! j = hs ! i}"
  have fin: "finite S" and ne: "S \<noteq> {}" and iS: "i \<in> S"
    using assms by (auto simp: S_def)
  define j where "j = Max S"
  have jS: "j \<in> S" unfolding j_def using fin ne by (rule Max_in)
  have ij: "i \<le> j" unfolding j_def using fin iS by (rule Max_ge)
  have "hs ! j \<notin> set (drop (Suc j) hs)"
  proof
    assume "hs ! j \<in> set (drop (Suc j) hs)"
    then obtain m where m: "m < length hs - Suc j" "drop (Suc j) hs ! m = hs ! j"
      by (auto simp: in_set_conv_nth)
    then have "Suc j + m \<in> S" using jS by (simp add: S_def)
    then have "Suc j + m \<le> j" unfolding j_def using fin by (simp add: Max_ge)
    then show False by simp
  qed
  with jS ij show ?thesis by (auto simp: S_def)
qed

lemma missing_lookup:
  assumes "length vals \<le> i" and "i < length hs"
  shows "map_of (buildRecord hs vals) (hs ! i) =
           (if hs ! i = js ''__proto__'' then None else Some (JString []))"
proof -
  from last_occurrence [OF assms(2)] obtain j
    where j: "i \<le> j" "j < length hs" "hs ! j = hs ! i" "hs ! j \<notin> set (drop (Suc j) hs)"
    by blast
  from j(1) assms(1) have "fieldValue vals j = JString []"
    by (simp add: fieldValue_missing)
  with record_lookup [OF j(2) j(4), of vals] j(3) show ?thesis by simp
qed

section \<open>Empty input\<close>

lemma csvLines_whitespace: "\<forall>c\<in>set text. isWhiteSpace c \<Longrightarrow> csvLines text = []"
  by (simp add: csvLines_def trim_all_whitespace trim_Nil)

text \<open>
  C6.  A text that is empty or holds white space only (the code units that \<open>trim\<close>
  removes, line ends included) has no non-blank line, and the parser fails on it with
  the error "Empty file".
\<close>

theorem C6_blank_text_is_empty_file:
  "\<forall>c\<in>set text. isWhiteSpace c \<Longrightarrow>
     csvLines text = [] \<and> parseCSVBuiltIn text = Inl EmptyFile"
  by (simp add: parseCSVBuiltIn_def csvLines_whitespace)

theorem C6_blank_text_witness:
  "csvLines [0x20, 0x09, CR, LF, 0xFEFF, LF] = [] \<and>
   parseCSVBuiltIn [0x20, 0x09, CR, LF, 0xFEFF, LF] = Inl EmptyFile \<and>
   parseCSVBuiltIn [] = Inl EmptyFile"
  using C6_blank_text_is_empty_file [of "[0x20, 0x09, CR, LF, 0xFEFF, LF]"]
    C6_blank_text_is_empty_file [of "[]"]
  by (simp add: isWhiteSpace_def CR_def LF_def)

text \<open>The parser fails on no other text.\<close>

lemma csvLines_Nil_iff: "csvLines text = [] \<longleftrightarrow> (\<forall>c\<in>set text. isWhiteSpace c)"
proof
  assume e: "csvLines text = []"
  show "\<forall>c\<in>set text. isWhiteSpace c"
  proof (rule ccontr)
    assume "\<not> (\<forall>c\<in>set text. isWhiteSpace c)"
    then obtain c where c: "c \<in> set text" "\<not> isWhiteSpace c" by blast
    then have t: "c \<in> set (trim text)" by (rule trim_keeps)
    from c(2) have "c \<noteq> LF" "c \<noteq> CR" by (auto simp: isWhiteSpace_def LF_def CR_def)
    from splitLines_keeps [OF t this] obtain l
      where l: "l \<in> set (splitLines (trim text))" "c \<in> set l" by blast
    from trim_keeps [OF l(2) c(2)] have "trim l \<noteq> []" by auto
    with l(1) have "l \<in> set (csvLines text)" by (simp add: csvLines_def)
    with e show False by simp
  qed
qed (rule csvLines_whitespace)

lemma parse_fails_iff:
  "parseCSVBuiltIn text = Inl EmptyFile \<longleftrightarrow> (\<forall>c\<in>set text. isWhiteSpace c)"
  by (simp add: parseCSVBuiltIn_def Let_def csvLines_Nil_iff [symmetric] split: prod.splits)

section \<open>Row filtering\<close>

lemma record_value_cases:
  assumes "v \<in> set (ObjectValues (lineRecord hs line))"
  shows "(\<exists>n. v = JNumber n \<and> n \<noteq> NaN) \<or> (\<exists>s. v = JString s)"
proof -
  from assms obtain j where "v = fieldValue (lineVals line) j"
    unfolding lineRecord_def using buildRecord_values by blast
  then show ?thesis using fieldValue_number_or_string [of "lineVals line" j] by simp
qed

lemma keepRow_lineRecord:
  "keepRow (lineRecord hs line) \<longleftrightarrow> \<not> allEmptyStrings (lineRecord hs line)"
proof -
  have "v \<noteq> Null" if "v \<in> set (ObjectValues (lineRecord hs line))" for v
    using record_value_cases [OF that] by auto
  then show ?thesis
    unfolding keepRow_def allEmptyStrings_def list_ex_iff list_all_iff by blast
qed

lemma allBlank_lineRecord:
  "allBlank (lineRecord hs line) \<longleftrightarrow> allEmptyStrings (lineRecord hs line)"
proof -
  have "v \<noteq> Null \<and> v \<noteq> Undefined" if "v \<in> set (ObjectValues (lineRecord hs line))" for v
    using record_value_cases [OF that] by auto
  then show ?thesis
    unfolding allBlank_def allEmptyStrings_def list_all_iff by blast
qed

lemma empty_fields_record:
  assumes "\<forall>f\<in>set (lineVals line). f = []"
  shows "allEmptyStrings (lineRecord hs line)"
  unfolding allEmptyStrings_def list_all_iff
proof
  fix v assume "v \<in> set (ObjectValues (lineRecord hs line))"
  then obtain j where v: "v = fieldValue (lineVals line) j"
    unfolding lineRecord_def using buildRecord_values by blast
  show "v = JString []"
  proof (cases "j < length (lineVals line)")
    case True
    with assms have "lineVals line ! j = []" by simp
    with True v show ?thesis by (simp add: fieldValue_eq)
  next
    case False
    with v show ?thesis by (simp add: fieldValue_missing)
  qed
qed

lemma lineVals_commas: "lineVals (js '',,,'') = [[], [], [], []]"
  by (simp add: lineVals_def js_def COMMA_def trim_Nil stripQuotes_Nil)

text \<open>
  C7.  The record of a data line is left out of the rows exactly when every one of
  its values is the empty string, null or undefined.  A line whose fields are all
  empty after trimming and stripping gives such a record; the line \<open>,,,\<close> is one, and
  it adds nothing to the rows whatever lines stand before and after it.
\<close>

theorem C7_record_dropped_iff_all_blank:
  "(keepRow (lineRecord hs line) \<longleftrightarrow> \<not> allBlank (lineRecord hs line)) \<and>
   buildRows hs dataLines = filter (\<lambda>r. \<not> allBlank r) (map (lineRecord hs) dataLines) \<and>
   ((\<forall>f\<in>set (lineVals line). f = []) \<longrightarrow> \<not> keepRow (lineRecord hs line)) \<and>
   buildRows hs (before @ [js '',,,''] @ after) = buildRows hs before @ buildRows hs after"
proof -
  have k: "keepRow (lineRecord hs l) \<longleftrightarrow> \<not> allBlank (lineRecord hs l)" for l
    by (simp add: keepRow_lineRecord allBlank_lineRecord)
  have f: "filter keepRow (map (lineRecord hs) ls)
             = filter (\<lambda>r. \<not> allBlank r) (map (lineRecord hs) ls)" for ls
    by (rule filter_cong) (auto simp: k)
  have e: "\<not> keepRow (lineRecord hs l)" if "\<forall>f\<in>set (lineVals l). f = []" for l
    using empty_fields_record [OF that] by (simp add: keepRow_lineRecord)
  have c: "\<not> keepRow (lineRecord hs (js '',,,''))"
    by (rule e) (simp add: lineVals_commas)
  show ?thesis
    using k f e c by (simp add: buildRows_def)
qed

theorem C7_record_dropped_witness:
  "lineVals (js '',,'') = [[], [], []] \<and>
   \<not> keepRow (lineRecord [js ''a'', js ''b''] (js '',,'')) \<and>
   allBlank (lineRecord [js ''a'', js ''b''] (js '',,'')) \<and>
   buildRows [js ''a'', js ''b''] ([] @ [js '',,,''] @ []) = []"
proof -
  have v: "lineVals (js '',,'') = [[], [], []]"
    by (simp add: lineVals_def js_def COMMA_def trim_Nil stripQuotes_Nil)
  then have h: "\<forall>f\<in>set (lineVals (js '',,'')). f = []" by simp
  show ?thesis
    using v h C7_record_dropped_iff_all_blank [of "[js ''a'', js ''b'']" "js '',,''" "[]" "[]" "[]"]
    by (auto simp: buildRows_def)
qed

section \<open>Short and long data lines\<close>

lemma fieldValue_pad:
  "fieldValue (vals @ replicate k []) i = fieldValue vals i"
  by (simp add: fieldValue_eq nth_append)

lemma fieldValue_take:
  "i < n \<Longrightarrow> fieldValue (take n vals) i = fieldValue vals i"
  by (simp add: fieldValue_eq)

text \<open>
  C8.  A data line with fewer fields than there are headers gives the record of the
  line with the missing fields written out as empty fields: the value for a header
  position beyond the fields of the line is the empty string, and the record holds
  the empty string under the header of such a position.  (Only a header \<open>__proto__\<close>
  has no property, in any record and whether its field is missing or not.)  A data
  line with more fields than there are headers gives the record of its first fields
  alone, and every property of a record holds the value of a header position.
\<close>

theorem C8_short_and_long_lines:
  "(length vals < length hs \<longrightarrow>
      buildRecord hs vals = buildRecord hs (vals @ replicate (length hs - length vals) [])) \<and>
   (\<forall>i. length vals \<le> i \<longrightarrow> fieldValue vals i = JString []) \<and>
   (\<forall>i. length vals \<le> i \<longrightarrow> i < length hs \<longrightarrow>
      map_of (buildRecord hs vals) (hs ! i) =
        (if hs ! i = js ''__proto__'' then None else Some (JString []))) \<and>
   (length hs < length vals \<longrightarrow> buildRecord hs vals = buildRecord hs (take (length hs) vals)) \<and>
   (\<forall>k v. (k, v) \<in> set (buildRecord hs vals) \<longrightarrow>
      (\<exists>j<length hs. k = hs ! j \<and> v = fieldValue vals j))"
proof (intro conjI allI impI)
  show "buildRecord hs vals = buildRecord hs (vals @ replicate (length hs - length vals) [])"
    by (rule buildRecord_cong) (simp add: fieldValue_pad)
  show "buildRecord hs vals = buildRecord hs (take (length hs) vals)"
    by (rule buildRecord_cong) (simp add: fieldValue_take)
  show "fieldValue vals i = JString []" if "length vals \<le> i" for i
    using that by (rule fieldValue_missing)
  show "map_of (buildRecord hs vals) (hs ! i) =
          (if hs ! i = js ''__proto__'' then None else Some (JString []))"
    if "length vals \<le> i" "i < length hs" for i
    using that by (rule missing_lookup)
  show "\<exists>j<length hs. k = hs ! j \<and> v = fieldValue vals j"
    if "(k, v) \<in> set (buildRecord hs vals)" for k v
    using that by (rule buildRecord_entries)
qed

theorem C8_short_and_long_lines_witness:
  "buildRecord [js ''a'', js ''b'', js ''c''] [js ''x'']
     = buildRecord [js ''a'', js ''b'', js ''c''] [js ''x'', [], []] \<and>
   buildRecord [js ''a'', js ''b'', js ''c''] [js ''x'']
     = [(js ''a'', JString (js ''x'')), (js ''b'', JString []), (js ''c'', JString [])] \<and>
   fieldValue [js ''x''] 1 = JString [] \<and>
   map_of (buildRecord [js ''a'', js ''b'', js ''c''] [js ''x'']) (js ''c'') = Some (JString []) \<and>
   buildRecord [js ''a''] [js ''x'', js ''y'', js ''z''] = buildRecord [js ''a''] [js ''x''] \<and>
   buildRecord [js ''a''] [js ''x'', js ''y'', js ''z''] = [(js ''a'', JString (js ''x''))]"
proof -
  have x: "StringToNumber (js ''x'') = NaN"
    by (simp add: js_def StringToNumber_def trim_def isWhiteSpace_def parseNonDecimal_def
        startsWith_def parseUnsignedDecimal_def isDigit_def)
  have f: "fieldValue [js ''x''] 0 = JString (js ''x'')"
    by (simp add: fieldValue_eq x)
  have r1: "buildRecord [js ''a'', js ''b'', js ''c''] [js ''x'']
     = [(js ''a'', JString (js ''x'')), (js ''b'', JString []), (js ''c'', JString [])]"
    by (simp add: buildRecord_def setProp_def f fieldValue_missing js_eq_iff)
  have r2: "buildRecord [js ''a''] [js ''x''] = [(js ''a'', JString (js ''x''))]"
    by (simp add: buildRecord_def setProp_def f js_eq_iff)
  have c1: "buildRecord [js ''a'', js ''b'', js ''c''] [js ''x'']
     = buildRecord [js ''a'', js ''b'', js ''c''] [js ''x'', [], []]"
    using C8_short_and_long_lines [of "[js ''x'']" "[js ''a'', js ''b'', js ''c'']"]
    by simp
  have c2: "fieldValue [js ''x''] 1 = JString []"
    using C8_short_and_long_lines [of "[js ''x'']" "[js ''a'', js ''b'', js ''c'']"]
    by simp
  have c3: "map_of (buildRecord [js ''a'', js ''b'', js ''c''] [js ''x'']) (js ''c'')
              = Some (JString [])"
    by (simp add: r1 js_eq_iff)
  have c4: "buildRecord [js ''a''] [js ''x'', js ''y'', js ''z''] = buildRecord [js ''a''] [js ''x'']"
    using C8_short_and_long_lines [of "[js ''x'', js ''y'', js ''z'']" "[js ''a'']"]
    by simp
  have c5: "buildRecord [js ''a''] [js ''x'', js ''y'', js ''z''] = [(js ''a'', JString (js ''x''))]"
    by (simp only: c4 r2)
  from c1 r1 c2 c3 c4 c5 show ?thesis
    by blast
qed

section \<open>The parsed table\<close>

lemmas string_defs = js_def DQUOTE_def COMMA_def LF_def CR_def trim_def isWhiteSpace_def
  startsWith_def endsWith_def includes_elem_def slice_def stripQuotes_def

lemma parse_Inr:
  "parseCSVBuiltIn text = Inr t \<longleftrightarrow>
     csvLines text \<noteq> [] \<and>
     t = \<lparr>headers = fst (headersAndData (csvLines text)),
          rows = buildRows (fst (headersAndData (csvLines text)))
                           (snd (headersAndData (csvLines text)))\<rparr>"
  by (auto simp: parseCSVBuiltIn_def Let_def split: prod.splits)

lemma length_dataLines:
  "length (snd (headersAndData lines)) = length lines - 1"
  by (simp add: headersAndData_def quotedRowBranch_def standardBranch_def Let_def)

text \<open>
  C10.  When the parser succeeds, every value of every record it builds from a data
  line, kept or not, is a number or a string, so it is neither null nor undefined;
  and the rows are the records of the data lines, in order, without those whose
  values are all the empty string.
\<close>

theorem C10_values_are_numbers_or_strings:
  "parseCSVBuiltIn text = Inr t \<Longrightarrow>
     (\<forall>l\<in>set (snd (headersAndData (csvLines text))).
        \<forall>v\<in>set (ObjectValues (lineRecord (headers t) l)).
          ((\<exists>n. v = JNumber n) \<or> (\<exists>s. v = JString s)) \<and> v \<noteq> Null \<and> v \<noteq> Undefined) \<and>
     (\<forall>r\<in>set (rows t). \<forall>v\<in>set (ObjectValues r).
          ((\<exists>n. v = JNumber n) \<or> (\<exists>s. v = JString s)) \<and> v \<noteq> Null \<and> v \<noteq> Undefined) \<and>
     rows t = filter (\<lambda>r. \<not> allEmptyStrings r)
                (map (lineRecord (headers t)) (snd (headersAndData (csvLines text))))"
proof -
  assume p: "parseCSVBuiltIn text = Inr t"
  define hs where "hs = fst (headersAndData (csvLines text))"
  define dl where "dl = snd (headersAndData (csvLines text))"
  from p have h: "headers t = hs" and r: "rows t = buildRows hs dl"
    by (simp_all add: parse_Inr hs_def dl_def)
  have v: "((\<exists>n. v = JNumber n) \<or> (\<exists>s. v = JString s)) \<and> v \<noteq> Null \<and> v \<noteq> Undefined"
    if "v \<in> set (ObjectValues (lineRecord hs l))" for v l
    using record_value_cases [OF that] by auto
  have f: "buildRows hs dl = filter (\<lambda>r. \<not> allEmptyStrings r) (map (lineRecord hs) dl)"
    unfolding buildRows_def by (rule filter_cong) (auto simp: keepRow_lineRecord)
  have w: "\<exists>l. r' = lineRecord hs l" if "r' \<in> set (buildRows hs dl)" for r'
    using that by (auto simp: buildRows_def)
  show ?thesis
    unfolding h r dl_def [symmetric]
  proof (intro conjI ballI)
    show "buildRows hs dl = filter (\<lambda>r. \<not> allEmptyStrings r) (map (lineRecord hs) dl)"
      by (rule f)
  qed (use v w in blast)+
qed

lemma rows_empty_iff:
  "buildRows hs dl = [] \<longleftrightarrow> (\<forall>l\<in>set dl. allEmptyStrings (lineRecord hs l))"
  by (simp add: buildRows_def filter_empty_conv keepRow_lineRecord)

text \<open>
  C4, as the code has it.  When the parser succeeds, the rows are empty exactly when
  every data line gives a record whose values are all the empty string.  There are
  as many data lines as non-blank lines after the header line, so a text with no
  such line has no rows; but a text can have such lines and no rows.
\<close>

theorem C4_no_rows_iff_all_records_empty:
  "parseCSVBuiltIn text = Inr t \<Longrightarrow>
     (rows t = [] \<longleftrightarrow>
        (\<forall>l\<in>set (snd (headersAndData (csvLines text))).
           allEmptyStrings (lineRecord (headers t) l))) \<and>
     length (snd (headersAndData (csvLines text))) = length (drop 1 (csvLines text)) \<and>
     (drop 1 (csvLines text) = [] \<longrightarrow> rows t = [])"
proof -
  assume p: "parseCSVBuiltIn text = Inr t"
  define hs where "hs = fst (headersAndData (csvLines text))"
  define dl where "dl = snd (headersAndData (csvLines text))"
  from p have h: "headers t = hs" and r: "rows t = buildRows hs dl"
    by (simp_all add: parse_Inr hs_def dl_def)
  have n: "length dl = length (drop 1 (csvLines text))"
    by (simp add: dl_def length_dataLines)
  then have "dl = []" if "drop 1 (csvLines text) = []"
    using that by simp
  then show ?thesis
    unfolding h r dl_def [symmetric] using n by (auto simp: rows_empty_iff)
qed

subsection \<open>A header and a line of empty fields\<close>

lemma comma_lines: "csvLines (js ''a\<newline>,'') = [js ''a'', js '','']"
  by (simp add: csvLines_def string_defs)

lemma comma_headersAndData: "headersAndData [js ''a'', js '',''] = ([js ''a''], [js '',''])"
  by (simp add: headersAndData_def isQuotedRow_def standardBranch_def string_defs)

lemma comma_vals: "lineVals (js '','') = [[], []]"
  by (simp add: lineVals_def js_def COMMA_def trim_Nil stripQuotes_Nil)

lemma comma_record: "lineRecord [js ''a''] (js '','') = [(js ''a'', JString [])]"
  by (simp add: lineRecord_def comma_vals buildRecord_def setProp_def fieldValue_eq js_eq_iff)

lemma comma_parse:
  "parseCSVBuiltIn (js ''a\<newline>,'') = Inr \<lparr>headers = [js ''a''], rows = []\<rparr>"
  by (simp add: parseCSVBuiltIn_def comma_lines comma_headersAndData buildRows_def comma_record
      keepRow_def ObjectValues_def)

lemma dup_lines: "csvLines (js ''a,a\<newline>x,'') = [js ''a,a'', js ''x,'']"
  by (simp add: csvLines_def string_defs)

lemma dup_headersAndData: "headersAndData [js ''a,a'', js ''x,''] = ([js ''a'', js ''a''], [js ''x,''])"
  by (simp add: headersAndData_def isQuotedRow_def standardBranch_def string_defs)

lemma dup_vals: "lineVals (js ''x,'') = [js ''x'', []]"
  by (simp add: lineVals_def string_defs)

lemma dup_record: "lineRecord [js ''a'', js ''a''] (js ''x,'') = [(js ''a'', JString [])]"
  by (simp add: lineRecord_def dup_vals buildRecord_def setProp_def fieldValue_eq js_eq_iff)

lemma dup_parse:
  "parseCSVBuiltIn (js ''a,a\<newline>x,'') = Inr \<lparr>headers = [js ''a'', js ''a''], rows = []\<rparr>"
  by (simp add: parseCSVBuiltIn_def dup_lines dup_headersAndData buildRows_def dup_record
      keepRow_def ObjectValues_def)

text \<open>
  The text of the two lines \<open>a\<close> and \<open>,\<close> has a non-blank line after its header
  line, and the parser returns no rows for it.  So it does for the lines \<open>a,a\<close> and
  \<open>x,\<close>, where the empty second field replaces the first under the repeated header.
\<close>

theorem C4_counterexample:
  "parseCSVBuiltIn (js ''a\<newline>,'') = Inr \<lparr>headers = [js ''a''], rows = []\<rparr> \<and>
   drop 1 (csvLines (js ''a\<newline>,'')) = [js '',''] \<and>
   trim (js '','') \<noteq> [] \<and>
   parseCSVBuiltIn (js ''a,a\<newline>x,'') = Inr \<lparr>headers = [js ''a'', js ''a''], rows = []\<rparr> \<and>
   drop 1 (csvLines (js ''a,a\<newline>x,'')) = [js ''x,''] \<and>
   trim (js ''x,'') \<noteq> []"
  by (simp add: comma_parse comma_lines dup_parse dup_lines) (simp add: string_defs)

theorem C4_no_rows_witness:
  "parseCSVBuiltIn (js ''a\<newline>,'') = Inr \<lparr>headers = [js ''a''], rows = []\<rparr> \<and>
   snd (headersAndData (csvLines (js ''a\<newline>,''))) = [js '',''] \<and>
   allEmptyStrings (lineRecord [js ''a''] (js '','')) \<and>
   length (drop 1 (csvLines (js ''a\<newline>,''))) = 1"
  using C4_no_rows_iff_all_records_empty [OF comma_parse]
  by (simp add: comma_parse comma_lines comma_headersAndData)

section \<open>Format detection\<close>

text \<open>
  C2.  For a text with a non-blank line, the parser takes the quoted-row branch
  exactly when the first non-blank line, trimmed, starts with a double quote, ends
  with a double quote and has no double quote between its first and its last code
  unit; it takes the standard branch in every other case.  (A line that is one
  double quote and nothing else starts and ends with it, and nothing stands between.)
\<close>

theorem C2_quoted_row_branch_iff:
  "csvLines text \<noteq> [] \<Longrightarrow>
     (isQuotedRow (trim (csvLines text ! 0)) \<longleftrightarrow> wrappedInQuotes (trim (csvLines text ! 0))) \<and>
     parseCSVBuiltIn text =
       Inr (tableOf (if wrappedInQuotes (trim (csvLines text ! 0))
                     then quotedRowBranch (csvLines text)
                     else standardBranch (trim (csvLines text ! 0)) (csvLines text)))"
  by (simp add: parseCSVBuiltIn_def headersAndData_def isQuotedRow_iff tableOf_def Let_def
      split: prod.splits)

lemma quoted_lines: \<open>csvLines (js ''"a , b"\<newline>" x,y"'') = [js ''"a , b"'', js ''" x,y"'']\<close>
  by (simp add: csvLines_def string_defs)

lemma quoted_first: \<open>trim (js ''"a , b"'') = js ''"a , b"''\<close>
  by (simp add: string_defs)

lemma quoted_wrapped: \<open>wrappedInQuotes (js ''"a , b"'')\<close>
  by (simp add: wrappedInQuotes_def string_defs)

lemma quoted_branch:
  \<open>quotedRowBranch [js ''"a , b"'', js ''" x,y"''] = ([js ''a'', js ''b''], [js '' x,y''])\<close>
  by (simp add: quotedRowBranch_def string_defs)

lemma standard_lines: \<open>csvLines (js ''a , "b"\<newline>x'') = [js ''a , "b"'', js ''x'']\<close>
  by (simp add: csvLines_def string_defs)

lemma standard_first: \<open>trim (js ''a , "b"'') = js ''a , "b"''\<close>
  by (simp add: string_defs)

lemma standard_not_wrapped: \<open>\<not> wrappedInQuotes (js ''a , "b"'')\<close>
  by (simp add: wrappedInQuotes_def string_defs)

lemma standard_branch:
  \<open>standardBranch (js ''a , "b"'') [js ''a , "b"'', js ''x''] = ([js ''a'', js ''b''], [js ''x''])\<close>
  by (simp add: standardBranch_def string_defs)

theorem C2_quoted_row_branch_witness:
  \<open>parseCSVBuiltIn (js ''"a , b"\<newline>" x,y"'') = Inr (tableOf ([js ''a'', js ''b''], [js '' x,y''])) \<and>
   wrappedInQuotes (js ''"a , b"'') \<and>
   parseCSVBuiltIn (js ''a , "b"\<newline>x'') = Inr (tableOf ([js ''a'', js ''b''], [js ''x''])) \<and>
   \<not> wrappedInQuotes (js ''a , "b"'')\<close>
proof -
  have 1: \<open>csvLines (js ''"a , b"\<newline>" x,y"'') \<noteq> []\<close> by (simp add: quoted_lines)
  have 2: \<open>csvLines (js ''a , "b"\<newline>x'') \<noteq> []\<close> by (simp add: standard_lines)
  show ?thesis
    using C2_quoted_row_branch_iff [OF 1] C2_quoted_row_branch_iff [OF 2]
    by (simp add: quoted_lines quoted_first quoted_wrapped quoted_branch
        standard_lines standard_first standard_not_wrapped standard_branch)
qed

section \<open>Numbers: the values of some fields\<close>

lemmas number_defs = StringToNumber_def parseNonDecimal_def parseUnsignedDecimal_def isDigit_def
  parseExponent_def radixValue_def hexDigitValue_def isRadixDigit_def

lemma round_1: "roundToDouble 1 = Fin 1"
  by (simp add: roundToDouble_def floorLog2_def roundHalfEven_def compute_bitlen)
lemma round_2: "roundToDouble 2 = Fin 2"
  by (simp add: roundToDouble_def floorLog2_def roundHalfEven_def compute_bitlen power_int_minus)
lemma round_3: "roundToDouble 3 = Fin 3"
  by (simp add: roundToDouble_def floorLog2_def roundHalfEven_def compute_bitlen power_int_minus)

lemma num_1: "StringToNumber (js ''1'') = Fin 1"
  by (simp add: number_defs string_defs round_1)
lemma num_2: "StringToNumber (js ''2'') = Fin 2"
  by (simp add: number_defs string_defs round_2)
lemma num_3: "StringToNumber (js ''3'') = Fin 3"
  by (simp add: number_defs string_defs round_3)
lemma num_PAYMENT: "StringToNumber (js ''PAYMENT'') = NaN"
  by (simp add: number_defs string_defs)
lemma num_Infinity: "StringToNumber (js ''Infinity'') = PosInf"
  by (simp add: number_defs string_defs)

lemma mv_9839: "parseUnsignedDecimal (js ''9839.64'') = roundToDouble (983964 / 100)"
  by (simp add: number_defs string_defs)

lemma log_9839: "floorLog2 (245991 / 25) = 13"
  by code_simp

lemma half_9839: "roundHalfEven (245991 / 25 / 2 powi (- 39)) = 5409399296564920"
  by code_simp

lemma round_9839: "roundToDouble (245991 / 25) = Fin (676174912070615 / 68719476736)"
proof -
  have "max (floorLog2 (245991 / 25) - 52) (- 1074) = - 39"
    by (simp add: log_9839)
  then show ?thesis
    unfolding roundToDouble_def Let_def
    by (simp only: half_9839) (simp add: power_int_minus)
qed

lemma num_9839: "StringToNumber (js ''9839.64'') = Fin (676174912070615 / 68719476736)"
proof -
  have "trim (js ''9839.64'') = js ''9839.64''" by (simp add: string_defs)
  moreover have "parseNonDecimal (js ''9839.64'') = None"
    by (simp add: number_defs string_defs)
  moreover have "\<not> startsWith 0x2D (js ''9839.64'')" "\<not> startsWith 0x2B (js ''9839.64'')"
    "js ''9839.64'' \<noteq> []"
    by (simp_all add: string_defs)
  ultimately show ?thesis
    by (simp add: StringToNumber_def mv_9839 round_9839)
qed

section \<open>Field typing\<close>

subsection \<open>A payment line and a line of empty fields\<close>

lemma pay_lines:
  "csvLines (js ''type,amount\<newline>PAYMENT,9839.64\<newline>,'')
     = [js ''type,amount'', js ''PAYMENT,9839.64'', js '','']"
  by (simp add: csvLines_def string_defs)

lemma pay_headersAndData:
  "headersAndData [js ''type,amount'', js ''PAYMENT,9839.64'', js '','']
     = ([js ''type'', js ''amount''], [js ''PAYMENT,9839.64'', js '',''])"
  by (simp add: headersAndData_def isQuotedRow_def standardBranch_def string_defs)

lemma pay_vals: "lineVals (js ''PAYMENT,9839.64'') = [js ''PAYMENT'', js ''9839.64'']"
  by (simp add: lineVals_def string_defs)

lemma pay_record:
  "lineRecord [js ''type'', js ''amount''] (js ''PAYMENT,9839.64'')
     = [(js ''type'', JString (js ''PAYMENT'')),
        (js ''amount'', JNumber (Fin (676174912070615 / 68719476736)))]"
  by (simp add: lineRecord_def pay_vals buildRecord_def setProp_def fieldValue_eq js_eq_iff
      js_Nil_iff num_PAYMENT num_9839)

lemma pay_blank_record:
  "lineRecord [js ''type'', js ''amount''] (js '','')
     = [(js ''type'', JString []), (js ''amount'', JString [])]"
  by (simp add: lineRecord_def comma_vals buildRecord_def setProp_def fieldValue_eq js_eq_iff)

lemma pay_parse:
  "parseCSVBuiltIn (js ''type,amount\<newline>PAYMENT,9839.64\<newline>,'')
     = Inr \<lparr>headers = [js ''type'', js ''amount''],
            rows = [[(js ''type'', JString (js ''PAYMENT'')),
                     (js ''amount'', JNumber (Fin (676174912070615 / 68719476736)))]]\<rparr>"
  by (simp add: parseCSVBuiltIn_def pay_lines pay_headersAndData buildRows_def pay_record
      pay_blank_record keepRow_def ObjectValues_def js_Nil_iff)

theorem C10_values_witness:
  "parseCSVBuiltIn (js ''type,amount\<newline>PAYMENT,9839.64\<newline>,'')
     = Inr \<lparr>headers = [js ''type'', js ''amount''],
            rows = [[(js ''type'', JString (js ''PAYMENT'')),
                     (js ''amount'', JNumber (Fin (676174912070615 / 68719476736)))]]\<rparr> \<and>
   ObjectValues (lineRecord [js ''type'', js ''amount''] (js '','')) = [JString [], JString []] \<and>
   filter (\<lambda>r. \<not> allEmptyStrings r)
     (map (lineRecord [js ''type'', js ''amount'']) [js ''PAYMENT,9839.64'', js '',''])
     = [[(js ''type'', JString (js ''PAYMENT'')),
         (js ''amount'', JNumber (Fin (676174912070615 / 68719476736)))]]"
  using C10_values_are_numbers_or_strings [OF pay_parse]
  by (simp add: pay_parse pay_lines pay_headersAndData pay_record pay_blank_record
      ObjectValues_def allEmptyStrings_def js_Nil_iff)

lemma lineVals_nth:
  "j < length (splitOn COMMA line) \<Longrightarrow>
     lineVals line ! j = stripQuotes (trim (splitOn COMMA line ! j))"
  by (simp add: lineVals_def)

lemma length_lineVals: "length (lineVals line) = length (splitOn COMMA line)"
  by (simp add: lineVals_def)

text \<open>
  C3, as the code has it.  A property of a record holds the value of a header
  position \<open>j\<close>.  With \<open>raw\<close> the field at \<open>j\<close> after trimming and after stripping
  the quotes (the empty string when the line has no such field), the value is a
  number exactly when \<open>raw\<close> is not empty and converts to a number other than NaN,
  and it is then that number, which may be infinite; otherwise the value is the
  string \<open>raw\<close>.  So a field that is empty only after the stripping, as a pair of
  double quotes is, stays the empty string, though the empty string converts to 0.
  The field \<open>PAYMENT\<close> stays that string, and \<open>9839.64\<close> becomes the double nearest
  to 9839.64.
\<close>

theorem C3_number_iff_not_NaN:
  "(\<forall>k v. (k, v) \<in> set (lineRecord hs line) \<longrightarrow>
      (\<exists>j<length hs. k = hs ! j \<and>
         (let raw = (if j < length (splitOn COMMA line)
                     then stripQuotes (trim (splitOn COMMA line ! j)) else [])
          in ((\<exists>n. v = JNumber n) \<longleftrightarrow> raw \<noteq> [] \<and> StringToNumber raw \<noteq> NaN) \<and>
             (raw \<noteq> [] \<longrightarrow> StringToNumber raw \<noteq> NaN \<longrightarrow> v = JNumber (StringToNumber raw)) \<and>
             (raw \<noteq> [] \<longrightarrow> StringToNumber raw = NaN \<longrightarrow> v = JString raw) \<and>
             (raw = [] \<longrightarrow> v = JString [])))) \<and>
   typedValue (JString (js ''PAYMENT'')) = JString (js ''PAYMENT'') \<and>
   typedValue (JString (js ''9839.64'')) = JNumber (Fin (676174912070615 / 68719476736)) \<and>
   \<bar>676174912070615 / 68719476736 - 983964 / 100\<bar> \<le> (1 / 2 ^ 40 :: rat)"
proof (intro conjI allI impI)
  fix k v
  assume "(k, v) \<in> set (lineRecord hs line)"
  then obtain j where j: "j < length hs" "k = hs ! j" "v = fieldValue (lineVals line) j"
    unfolding lineRecord_def using buildRecord_entries by blast
  define raw where
    "raw = (if j < length (splitOn COMMA line)
            then stripQuotes (trim (splitOn COMMA line ! j)) else [])"
  have r: "raw = (if j < length (lineVals line) then lineVals line ! j else [])"
    by (simp add: raw_def length_lineVals lineVals_nth)
  from j(3) have v: "v = (if raw \<noteq> [] \<and> StringToNumber raw \<noteq> NaN
                         then JNumber (StringToNumber raw) else JString raw)"
    unfolding r by (simp add: fieldValue_eq Let_def)
  have "((\<exists>n. v = JNumber n) \<longleftrightarrow> raw \<noteq> [] \<and> StringToNumber raw \<noteq> NaN) \<and>
        (raw \<noteq> [] \<longrightarrow> StringToNumber raw \<noteq> NaN \<longrightarrow> v = JNumber (StringToNumber raw)) \<and>
        (raw \<noteq> [] \<longrightarrow> StringToNumber raw = NaN \<longrightarrow> v = JString raw) \<and>
        (raw = [] \<longrightarrow> v = JString [])"
    unfolding v by simp
  with j(1,2) show "\<exists>j<length hs. k = hs ! j \<and>
         (let raw = (if j < length (splitOn COMMA line)
                     then stripQuotes (trim (splitOn COMMA line ! j)) else [])
          in ((\<exists>n. v = JNumber n) \<longleftrightarrow> raw \<noteq> [] \<and> StringToNumber raw \<noteq> NaN) \<and>
             (raw \<noteq> [] \<longrightarrow> StringToNumber raw \<noteq> NaN \<longrightarrow> v = JNumber (StringToNumber raw)) \<and>
             (raw \<noteq> [] \<longrightarrow> StringToNumber raw = NaN \<longrightarrow> v = JString raw) \<and>
             (raw = [] \<longrightarrow> v = JString []))"
    unfolding raw_def Let_def by blast
next
  show "typedValue (JString (js ''PAYMENT'')) = JString (js ''PAYMENT'')"
    by (simp add: typedValue_def isNaN_def num_PAYMENT)
  show "typedValue (JString (js ''9839.64'')) = JNumber (Fin (676174912070615 / 68719476736))"
    by (simp add: typedValue_def isNaN_def num_9839 js_Nil_iff)
  show "\<bar>676174912070615 / 68719476736 - 983964 / 100\<bar> \<le> (1 / 2 ^ 40 :: rat)"
    by simp
qed

theorem C3_number_witness:
  "(js ''amount'', JNumber (Fin (676174912070615 / 68719476736)))
     \<in> set (lineRecord [js ''type'', js ''amount''] (js ''PAYMENT,9839.64'')) \<and>
   stripQuotes (trim (splitOn COMMA (js ''PAYMENT,9839.64'') ! 1)) = js ''9839.64'' \<and>
   js ''9839.64'' \<noteq> [] \<and>
   StringToNumber (js ''9839.64'') \<noteq> NaN \<and>
   typedValue (JString (js ''PAYMENT'')) = JString (js ''PAYMENT'') \<and>
   typedValue (JString (js ''9839.64'')) = JNumber (Fin (676174912070615 / 68719476736))"
proof -
  have m: "(js ''amount'', JNumber (Fin (676174912070615 / 68719476736)))
     \<in> set (lineRecord [js ''type'', js ''amount''] (js ''PAYMENT,9839.64''))"
    by (simp add: pay_record)
  have "length (splitOn COMMA (js ''PAYMENT,9839.64'')) = 2"
    using length_lineVals [of "js ''PAYMENT,9839.64''"] by (simp add: pay_vals)
  then have v: "stripQuotes (trim (splitOn COMMA (js ''PAYMENT,9839.64'') ! 1)) = js ''9839.64''"
    using lineVals_nth [of 1 "js ''PAYMENT,9839.64''"] by (simp add: pay_vals)
  have e: "js ''9839.64'' \<noteq> []"
    by (simp add: js_Nil_iff)
  have n: "StringToNumber (js ''9839.64'') \<noteq> NaN"
    by (simp add: num_9839)
  from C3_number_iff_not_NaN [of "[js ''type'', js ''amount'']" "js ''PAYMENT,9839.64''"]
  have "typedValue (JString (js ''PAYMENT'')) = JString (js ''PAYMENT'') \<and>
        typedValue (JString (js ''9839.64'')) = JNumber (Fin (676174912070615 / 68719476736))"
    by blast
  with m v e n show ?thesis by blast
qed

subsection \<open>A field that reads Infinity, and a field of two double quotes\<close>

lemma inf_lines: "csvLines (js ''a\<newline>Infinity'') = [js ''a'', js ''Infinity'']"
  by (simp add: csvLines_def string_defs)

lemma inf_headersAndData:
  "headersAndData [js ''a'', js ''Infinity''] = ([js ''a''], [js ''Infinity''])"
  by (simp add: headersAndData_def isQuotedRow_def standardBranch_def string_defs)

lemma inf_vals: "lineVals (js ''Infinity'') = [js ''Infinity'']"
  by (simp add: lineVals_def string_defs)

lemma inf_record: "lineRecord [js ''a''] (js ''Infinity'') = [(js ''a'', JNumber PosInf)]"
  by (simp add: lineRecord_def inf_vals buildRecord_def setProp_def fieldValue_eq js_eq_iff
      js_Nil_iff num_Infinity)

lemma inf_parse:
  "parseCSVBuiltIn (js ''a\<newline>Infinity'')
     = Inr \<lparr>headers = [js ''a''], rows = [[(js ''a'', JNumber PosInf)]]\<rparr>"
  by (simp add: parseCSVBuiltIn_def inf_lines inf_headersAndData buildRows_def inf_record
      keepRow_def ObjectValues_def)

lemma qq_lines: \<open>csvLines (js ''a,b\<newline>1,""'') = [js ''a,b'', js ''1,""'']\<close>
  by (simp add: csvLines_def string_defs)

lemma qq_headersAndData:
  \<open>headersAndData [js ''a,b'', js ''1,""''] = ([js ''a'', js ''b''], [js ''1,""''])\<close>
  by (simp add: headersAndData_def isQuotedRow_def standardBranch_def string_defs)

lemma qq_split: \<open>splitOn COMMA (js ''1,""'') = [js ''1'', js ''""'']\<close>
  by (simp add: string_defs)

lemma qq_field: \<open>trim (js ''""'') = js ''""'' \<and> stripQuotes (js ''""'') = []\<close>
  by (simp add: string_defs)

lemma qq_vals: \<open>lineVals (js ''1,""'') = [js ''1'', []]\<close>
  by (simp add: lineVals_def string_defs)

lemma qq_record:
  \<open>lineRecord [js ''a'', js ''b''] (js ''1,""'')
     = [(js ''a'', JNumber (Fin 1)), (js ''b'', JString [])]\<close>
  by (simp add: lineRecord_def qq_vals buildRecord_def setProp_def fieldValue_eq js_eq_iff
      js_Nil_iff num_1)

lemma qq_parse:
  \<open>parseCSVBuiltIn (js ''a,b\<newline>1,""'')
     = Inr \<lparr>headers = [js ''a'', js ''b''],
            rows = [[(js ''a'', JNumber (Fin 1)), (js ''b'', JString [])]]\<rparr>\<close>
  by (simp add: parseCSVBuiltIn_def qq_lines qq_headersAndData buildRows_def qq_record
      keepRow_def ObjectValues_def)

lemma num_empty: "StringToNumber [] = Fin 0"
  by (simp add: StringToNumber_def trim_Nil)

text \<open>
  The field \<open>Infinity\<close> is no finite number, and the parser stores it as the number
  infinity, not as the string.  The field of two double quotes is not empty after
  trimming, and what is left of it without the quotes, the empty string, converts to
  the finite number 0; the parser stores the empty string, not a number.
\<close>

theorem C3_counterexample:
  \<open>parseCSVBuiltIn (js ''a\<newline>Infinity'')
     = Inr \<lparr>headers = [js ''a''], rows = [[(js ''a'', JNumber PosInf)]]\<rparr> \<and>
   lineVals (js ''Infinity'') = [js ''Infinity''] \<and>
   \<not> isFiniteString (js ''Infinity'') \<and>
   JNumber PosInf \<noteq> JString (js ''Infinity'') \<and>
   parseCSVBuiltIn (js ''a,b\<newline>1,""'')
     = Inr \<lparr>headers = [js ''a'', js ''b''],
            rows = [[(js ''a'', JNumber (Fin 1)), (js ''b'', JString [])]]\<rparr> \<and>
   splitOn COMMA (js ''1,""'') = [js ''1'', js ''""''] \<and>
   trim (js ''""'') \<noteq> [] \<and>
   stripQuotes (trim (js ''""'')) = [] \<and>
   isFiniteString [] \<and>
   StringToNumber [] = Fin 0\<close>
  by (simp add: inf_parse inf_vals isFiniteString_def num_Infinity qq_parse qq_split qq_field
      num_empty js_Nil_iff)

section \<open>Quotes around a field\<close>

lemma lineVals_stripEnds:
  "lineVals line = map (\<lambda>f. stripEnds (trim f)) (splitOn COMMA line)"
  by (simp add: lineVals_def stripQuotes_eq_stripEnds)

lemma lineRecord_stripEnds:
  "lineRecord hs = (\<lambda>l. buildRecord hs (map (\<lambda>f. stripEnds (trim f)) (splitOn COMMA l)))"
  by (rule ext) (simp add: lineRecord_def lineVals_stripEnds)

lemma stripEnds_leading: "\<not> endsWith DQUOTE s \<Longrightarrow> stripEnds (DQUOTE # s) = s"
  by (auto simp: stripEnds_def endsWith_iff)

lemma stripEnds_trailing: "\<not> startsWith DQUOTE s \<Longrightarrow> stripEnds (s @ [DQUOTE]) = s"
  by (cases s) (simp_all add: stripEnds_def startsWith_iff)

lemma stripEnds_both: "stripEnds (DQUOTE # s @ [DQUOTE]) = s"
  by (simp add: stripEnds_def)

lemma stripEnds_none: "\<not> startsWith DQUOTE s \<Longrightarrow> \<not> endsWith DQUOTE s \<Longrightarrow> stripEnds s = s"
  by (auto simp: stripEnds_def startsWith_iff endsWith_iff)

text \<open>
  C5, as the code has it.  In the standard branch every header field and every data
  field is a piece of the line between commas, trimmed, and then without its leading
  double quote if it has one and without its trailing double quote if it has one,
  each end on its own: a field with a quote at one end only loses that quote.
\<close>

theorem C5_standard_fields_strip_each_end:
  "csvLines text \<noteq> [] \<Longrightarrow> \<not> isQuotedRow (trim (csvLines text ! 0)) \<Longrightarrow>
     (\<exists>t. parseCSVBuiltIn text = Inr t \<and>
        headers t = map (\<lambda>f. stripEnds (trim f)) (splitOn COMMA (trim (csvLines text ! 0))) \<and>
        rows t = filter keepRow
                   (map (\<lambda>l. buildRecord (headers t)
                                (map (\<lambda>f. stripEnds (trim f)) (splitOn COMMA l)))
                        (drop 1 (csvLines text)))) \<and>
     (\<forall>s. \<not> endsWith DQUOTE s \<longrightarrow> stripQuotes (DQUOTE # s) = s) \<and>
     (\<forall>s. \<not> startsWith DQUOTE s \<longrightarrow> stripQuotes (s @ [DQUOTE]) = s) \<and>
     (\<forall>s. stripQuotes (DQUOTE # s @ [DQUOTE]) = s) \<and>
     (\<forall>s. \<not> startsWith DQUOTE s \<longrightarrow> \<not> endsWith DQUOTE s \<longrightarrow> stripQuotes s = s)"
proof (intro conjI allI impI)
  assume l: "csvLines text \<noteq> []" and q: "\<not> isQuotedRow (trim (csvLines text ! 0))"
  define t where "t = tableOf (standardBranch (trim (csvLines text ! 0)) (csvLines text))"
  from l q have "parseCSVBuiltIn text = Inr t"
    by (simp add: parseCSVBuiltIn_def headersAndData_def t_def tableOf_def Let_def
        split: prod.splits)
  moreover have "headers t = map (\<lambda>f. stripEnds (trim f)) (splitOn COMMA (trim (csvLines text ! 0)))"
    by (simp add: t_def tableOf_def standardBranch_def stripQuotes_eq_stripEnds)
  moreover have "rows t = filter keepRow
                   (map (\<lambda>l. buildRecord (headers t)
                                (map (\<lambda>f. stripEnds (trim f)) (splitOn COMMA l)))
                        (drop 1 (csvLines text)))"
    by (simp add: t_def tableOf_def standardBranch_def buildRows_def lineRecord_stripEnds)
  ultimately show "\<exists>t. parseCSVBuiltIn text = Inr t \<and>
        headers t = map (\<lambda>f. stripEnds (trim f)) (splitOn COMMA (trim (csvLines text ! 0))) \<and>
        rows t = filter keepRow
                   (map (\<lambda>l. buildRecord (headers t)
                                (map (\<lambda>f. stripEnds (trim f)) (splitOn COMMA l)))
                        (drop 1 (csvLines text)))"
    by blast
qed (simp_all add: stripQuotes_eq_stripEnds stripEnds_leading stripEnds_trailing stripEnds_both
    stripEnds_none)

subsection \<open>Fields with a quote at one end\<close>

lemma one_lines: \<open>csvLines (js ''a"\<newline>"x'') = [js ''a"'', js ''"x'']\<close>
  by (simp add: csvLines_def string_defs)

lemma one_first: \<open>trim (js ''a"'') = js ''a"''\<close>
  by (simp add: string_defs)

lemma one_not_quoted: \<open>\<not> isQuotedRow (js ''a"'')\<close>
  by (simp add: isQuotedRow_def string_defs)

lemma one_headersAndData:
  \<open>headersAndData [js ''a"'', js ''"x''] = ([js ''a''], [js ''"x''])\<close>
  by (simp add: headersAndData_def isQuotedRow_def standardBranch_def string_defs)

lemma one_vals: \<open>lineVals (js ''"x'') = [js ''x'']\<close>
  by (simp add: lineVals_def string_defs)

lemma num_x: "StringToNumber (js ''x'') = NaN"
  by (simp add: number_defs string_defs)

lemma one_record: \<open>lineRecord [js ''a''] (js ''"x'') = [(js ''a'', JString (js ''x''))]\<close>
  by (simp add: lineRecord_def one_vals buildRecord_def setProp_def fieldValue_eq js_eq_iff
      js_Nil_iff num_x)

lemma one_parse:
  \<open>parseCSVBuiltIn (js ''a"\<newline>"x'')
     = Inr \<lparr>headers = [js ''a''], rows = [[(js ''a'', JString (js ''x''))]]\<rparr>\<close>
  by (simp add: parseCSVBuiltIn_def one_lines one_headersAndData buildRows_def one_record
      keepRow_def ObjectValues_def js_Nil_iff)

text \<open>
  The header \<open>a"\<close> and the data field \<open>"x\<close> have a double quote at one end only.
  Stripping only when both ends have one would leave them as they are; the parser
  returns the header \<open>a\<close> and the value \<open>x\<close>.
\<close>

theorem C5_counterexample:
  \<open>parseCSVBuiltIn (js ''a"\<newline>"x'')
     = Inr \<lparr>headers = [js ''a''], rows = [[(js ''a'', JString (js ''x''))]]\<rparr> \<and>
   \<not> isQuotedRow (trim (csvLines (js ''a"\<newline>"x'') ! 0)) \<and>
   splitOn COMMA (js ''a"'') = [js ''a"''] \<and>
   stripBothQuotes (trim (js ''a"'')) = js ''a"'' \<and>
   js ''a"'' \<noteq> js ''a'' \<and>
   splitOn COMMA (js ''"x'') = [js ''"x''] \<and>
   stripBothQuotes (trim (js ''"x'')) = js ''"x'' \<and>
   js ''"x'' \<noteq> js ''x''\<close>
  by (simp add: one_parse one_lines one_first one_not_quoted js_eq_iff)
    (simp add: stripBothQuotes_def string_defs)

theorem C5_standard_fields_witness:
  \<open>parseCSVBuiltIn (js ''a"\<newline>"x'')
     = Inr \<lparr>headers = [js ''a''], rows = [[(js ''a'', JString (js ''x''))]]\<rparr> \<and>
   map (\<lambda>f. stripEnds (trim f)) (splitOn COMMA (trim (csvLines (js ''a"\<newline>"x'') ! 0)))
     = [js ''a''] \<and>
   stripQuotes (DQUOTE # js ''x'') = js ''x'' \<and>
   stripQuotes (js ''a'' @ [DQUOTE]) = js ''a'' \<and>
   stripQuotes (DQUOTE # js ''a,b'' @ [DQUOTE]) = js ''a,b'' \<and>
   stripQuotes (js ''a'') = js ''a''\<close>
proof -
  have 1: \<open>csvLines (js ''a"\<newline>"x'') \<noteq> []\<close> by (simp add: one_lines)
  have 2: \<open>\<not> isQuotedRow (trim (csvLines (js ''a"\<newline>"x'') ! 0))\<close>
    by (simp add: one_lines one_first one_not_quoted)
  have 3: "\<not> endsWith DQUOTE (js ''x'')" "\<not> startsWith DQUOTE (js ''a'')"
    "\<not> endsWith DQUOTE (js ''a'')"
    by (simp_all add: string_defs)
  from C5_standard_fields_strip_each_end [OF 1 2] 3
  show ?thesis
    by (auto simp: one_parse)
qed

section \<open>The two formats give the same table\<close>

lemma abc_lines: "csvLines (js ''a,b,c\<newline>1,2,3'') = [js ''a,b,c'', js ''1,2,3'']"
  by (simp add: csvLines_def string_defs)

lemma abc_lines_crlf:
  "csvLines (js ''a,b,c'' @ CR # LF # js ''1,2,3'') = [js ''a,b,c'', js ''1,2,3'']"
  by (simp add: csvLines_def string_defs)

lemma abc_headersAndData:
  "headersAndData [js ''a,b,c'', js ''1,2,3''] = ([js ''a'', js ''b'', js ''c''], [js ''1,2,3''])"
  by (simp add: headersAndData_def isQuotedRow_def standardBranch_def string_defs)

lemma abc_quoted_lines:
  \<open>csvLines (js ''"a,b,c"\<newline>"1,2,3"'') = [js ''"a,b,c"'', js ''"1,2,3"'']\<close>
  by (simp add: csvLines_def string_defs)

lemma abc_quoted_lines_crlf:
  \<open>csvLines (js ''"a,b,c"'' @ CR # LF # js ''"1,2,3"'') = [js ''"a,b,c"'', js ''"1,2,3"'']\<close>
  by (simp add: csvLines_def string_defs)

lemma abc_quoted_headersAndData:
  \<open>headersAndData [js ''"a,b,c"'', js ''"1,2,3"'']
     = ([js ''a'', js ''b'', js ''c''], [js ''1,2,3''])\<close>
  by (simp add: headersAndData_def isQuotedRow_def quotedRowBranch_def string_defs)

lemma abc_vals: "lineVals (js ''1,2,3'') = [js ''1'', js ''2'', js ''3'']"
  by (simp add: lineVals_def string_defs)

lemma abc_record:
  "lineRecord [js ''a'', js ''b'', js ''c''] (js ''1,2,3'')
     = [(js ''a'', JNumber (Fin 1)), (js ''b'', JNumber (Fin 2)), (js ''c'', JNumber (Fin 3))]"
  by (simp add: lineRecord_def abc_vals buildRecord_def setProp_def fieldValue_eq js_eq_iff
      js_Nil_iff num_1 num_2 num_3)

lemma abc_rows:
  "buildRows [js ''a'', js ''b'', js ''c''] [js ''1,2,3'']
     = [[(js ''a'', JNumber (Fin 1)), (js ''b'', JNumber (Fin 2)), (js ''c'', JNumber (Fin 3))]]"
  by (simp add: buildRows_def abc_record keepRow_def ObjectValues_def)

text \<open>
  C1.  The text of the two lines \<open>"a,b,c"\<close> and \<open>"1,2,3"\<close>, each wrapped in one pair
  of double quotes, gives the same table as the text of the two lines \<open>a,b,c\<close> and
  \<open>1,2,3\<close>: the headers \<open>a\<close>, \<open>b\<close>, \<open>c\<close> and one row with the numbers 1, 2 and 3;
  with a line feed between the lines, or a carriage return and a line feed.
\<close>

theorem C1_quoted_rows_as_standard:
  \<open>parseCSVBuiltIn (js ''"a,b,c"\<newline>"1,2,3"'') = parseCSVBuiltIn (js ''a,b,c\<newline>1,2,3'') \<and>
   parseCSVBuiltIn (js ''a,b,c\<newline>1,2,3'')
     = Inr \<lparr>headers = [js ''a'', js ''b'', js ''c''],
            rows = [[(js ''a'', JNumber (Fin 1)), (js ''b'', JNumber (Fin 2)),
                     (js ''c'', JNumber (Fin 3))]]\<rparr> \<and>
   parseCSVBuiltIn (js ''"a,b,c"'' @ CR # LF # js ''"1,2,3"'')
     = parseCSVBuiltIn (js ''a,b,c'' @ CR # LF # js ''1,2,3'') \<and>
   parseCSVBuiltIn (js ''a,b,c'' @ CR # LF # js ''1,2,3'')
     = parseCSVBuiltIn (js ''a,b,c\<newline>1,2,3'')\<close>
  by (simp add: parseCSVBuiltIn_def abc_lines abc_lines_crlf abc_quoted_lines
      abc_quoted_lines_crlf abc_headersAndData abc_quoted_headersAndData abc_rows)

theorem C1_quoted_rows_witness:
  \<open>parseCSVBuiltIn (js ''"a,b,c"\<newline>"1,2,3"'')
     = Inr \<lparr>headers = [js ''a'', js ''b'', js ''c''],
            rows = [[(js ''a'', JNumber (Fin 1)), (js ''b'', JNumber (Fin 2)),
                     (js ''c'', JNumber (Fin 3))]]\<rparr>\<close>
  using C1_quoted_rows_as_standard by simp

section \<open>The check of the required columns\<close>

lemma missingColumns_not_Nil:
  "\<exists>c\<in>set req. c \<notin> set hs \<Longrightarrow> missingColumns req hs \<noteq> []"
  by (auto simp: missingColumns_def includes_elem_def filter_empty_conv)

text \<open>
  C9.  When the headers of the parsed table lack a required column, the handler
  ends with the error text \<open>Missing columns: \<close>, the missing required columns in
  their order, joined by a comma and a space, then \<open>. Found: \<close> and the headers
  joined likewise.  With the required columns \<open>a\<close>, \<open>b\<close>, \<open>c\<close> and the headers \<open>a\<close>,
  \<open>b\<close> the text is \<open>Missing columns: c. Found: a, b\<close>.
\<close>

theorem C9_missing_columns_reported:
  "(parseCSVBuiltIn text = Inr t \<longrightarrow> (\<exists>c\<in>set REQ_COLS. c \<notin> set (headers t)) \<longrightarrow>
      handleFileBuiltIn text =
        ParseErr (js ''Missing columns: ''
                  @ join (js '', '') (filter (\<lambda>c. c \<notin> set (headers t)) REQ_COLS)
                  @ js ''. Found: '' @ join (js '', '') (headers t))) \<and>
   ((\<exists>c\<in>set req. c \<notin> set hs) \<longrightarrow>
      checkColumns req hs =
        Some (js ''Missing columns: '' @ join (js '', '') (filter (\<lambda>c. c \<notin> set hs) req)
              @ js ''. Found: '' @ join (js '', '') hs)) \<and>
   checkColumns [js ''a'', js ''b'', js ''c''] [js ''a'', js ''b'']
     = Some (js ''Missing columns: c. Found: a, b'')"
proof (intro conjI impI)
  show c: "checkColumns req hs =
        Some (js ''Missing columns: '' @ join (js '', '') (filter (\<lambda>c. c \<notin> set hs) req)
              @ js ''. Found: '' @ join (js '', '') hs)"
    if "\<exists>c\<in>set req. c \<notin> set hs" for req hs
    using missingColumns_not_Nil [OF that]
    by (simp add: checkColumns_def missingMessage_def Let_def)
      (simp add: missingColumns_def includes_elem_def)
  show "handleFileBuiltIn text =
        ParseErr (js ''Missing columns: ''
                  @ join (js '', '') (filter (\<lambda>c. c \<notin> set (headers t)) REQ_COLS)
                  @ js ''. Found: '' @ join (js '', '') (headers t))"
    if "parseCSVBuiltIn text = Inr t" "\<exists>c\<in>set REQ_COLS. c \<notin> set (headers t)"
    using that c [OF that(2)] by (simp add: handleFileBuiltIn_def)
  show "checkColumns [js ''a'', js ''b'', js ''c''] [js ''a'', js ''b'']
     = Some (js ''Missing columns: c. Found: a, b'')"
    by (simp add: checkColumns_def missingColumns_def missingMessage_def includes_elem_def
        js_eq_iff) (simp add: js_def)
qed

theorem C9_missing_columns_witness:
  "handleFileBuiltIn (js ''type,amount\<newline>PAYMENT,9839.64\<newline>,'')
     = ParseErr (js ''Missing columns: step, oldbalanceOrg, newbalanceOrig, oldbalanceDest, newbalanceDest. Found: type, amount'')"
proof -
  have m: "\<exists>c\<in>set REQ_COLS. c \<notin> set [js ''type'', js ''amount'']"
    by (simp add: REQ_COLS_def js_eq_iff)
  have f: "filter (\<lambda>c. c \<notin> set [js ''type'', js ''amount'']) REQ_COLS
             = map js [''step'', ''oldbalanceOrg'', ''newbalanceOrig'', ''oldbalanceDest'',
                       ''newbalanceDest'']"
    by (simp add: REQ_COLS_def js_eq_iff)
  from C9_missing_columns_reported [of "js ''type,amount\<newline>PAYMENT,9839.64\<newline>,''"
      "\<lparr>headers = [js ''type'', js ''amount''],
            rows = [[(js ''type'', JString (js ''PAYMENT'')),
                     (js ''amount'', JNumber (Fin (676174912070615 / 68719476736)))]]\<rparr>"] m
  have "handleFileBuiltIn (js ''type,amount\<newline>PAYMENT,9839.64\<newline>,'') =
        ParseErr (js ''Missing columns: ''
                  @ join (js '', '') (filter (\<lambda>c. c \<notin> set [js ''type'', js ''amount'']) REQ_COLS)
                  @ js ''. Found: '' @ join (js '', '') [js ''type'', js ''amount''])"
    by (simp add: pay_parse)
  then show ?thesis
    unfolding f by (simp add: js_def)
qed

end
